theory Spec2Isabelle
  imports Main "HOL-Library.Word"
begin

section \<open>The devtools client of textual: \<open>src/textual/devtools/client.py\<close>\<close>

text \<open>
  The client ships log records to the devtools server over a websocket. A call of
  \<open>log\<close> renders its arguments on a recording console, pickles and base64-encodes the
  rendered segments, wraps them in a JSON envelope and puts the text on a bounded
  \<open>asyncio.Queue\<close> without waiting; a sender task takes the texts off the queue and
  writes them to the socket, a listener task applies the server's console dimensions.

  Python objects are mutable and the methods return \<open>None\<close>: every method is a function
  from the client's state to an outcome carrying the state it leaves behind. The
  libraries the module calls (rich, pickle, aiohttp, asyncio, json) are not part of the
  repository; each is modelled at the interface the module uses, as said where it occurs.
\<close>

subsection \<open>Exceptions and outcomes\<close>

datatype py_error =
    QueueFull
  | ValueError
  | KeyError
  | TypeError
  | JSONDecodeError
  | ClientConnectorError
  | ClientResponseError
  | ConnectionResetError
  | TimeoutError
  | DevtoolsConnectionError

text \<open>
  A call returns, raises (the state as the exception leaves it), or never resumes its
  caller (an \<open>await\<close> nothing will ever complete).
\<close>

datatype 's outcome = Returns 's | Raises py_error 's | Hangs 's

subsection \<open>Constants of the module\<close>

definition DEFAULT_PORT :: int where
  "DEFAULT_PORT = 8081"

definition WEBSOCKET_CONNECT_TIMEOUT :: int where
  "WEBSOCKET_CONNECT_TIMEOUT = 3"

definition LOG_QUEUE_MAXSIZE :: int where
  "LOG_QUEUE_MAXSIZE = 512"

subsection \<open>JSON values and \<open>json.dumps\<close>\<close>

text \<open>
  A JSON document as Python holds it: \<open>None\<close>, \<open>bool\<close>, \<open>int\<close>, \<open>str\<close>, \<open>list\<close> and
  \<open>dict\<close> (floats are left out). A \<open>dict\<close> keeps its insertion order, so it is an
  association list. A Python \<open>str\<close> is a \<open>string\<close> here: its characters are the code
  points below 256.
\<close>

datatype json =
    JNull
  | JBool bool
  | JInt int
  | JStr string
  | JList "json list"
  | JObj "(string \<times> json) list"

definition digit_char :: "nat \<Rightarrow> char" where
  "digit_char d = char_of (48 + d)"

function str_nat :: "nat \<Rightarrow> string" where
  "str_nat n = (if n < 10 then [digit_char n] else str_nat (n div 10) @ [digit_char (n mod 10)])"
  by pat_completeness auto
termination
  by (relation "measure id") auto

declare str_nat.simps [simp del]

text \<open>\<open>str(i)\<close> for an \<open>int\<close>.\<close>

definition str_int :: "int \<Rightarrow> string" where
  "str_int i = (if i < 0 then CHR ''-'' # str_nat (nat (- i)) else str_nat (nat i))"

definition hex_char :: "nat \<Rightarrow> char" where
  "hex_char d = (if d < 10 then char_of (48 + d) else char_of (87 + d))"

text \<open>
  \<open>json.encoder.py_encode_basestring_ascii\<close>, the default of \<open>json.dumps\<close>: the quote
  and the backslash are escaped, the control characters have their short or \<open>\u00XX\<close>
  form, and every character outside \<open>' '..'~'\<close> is written \<open>\u00XX\<close>.
\<close>

definition escape_char :: "char \<Rightarrow> string" where
  "escape_char c =
     (let n = of_char c :: nat in
      if n = 0x22 then [CHR 0x5C, CHR 0x22]
      else if n = 0x5C then [CHR 0x5C, CHR 0x5C]
      else if n = 0x08 then [CHR 0x5C, CHR ''b'']
      else if n = 0x0C then [CHR 0x5C, CHR ''f'']
      else if n = 0x0A then [CHR 0x5C, CHR ''n'']
      else if n = 0x0D then [CHR 0x5C, CHR ''r'']
      else if n = 0x09 then [CHR 0x5C, CHR ''t'']
      else if 0x20 \<le> n \<and> n \<le> 0x7E then [c]
      else [CHR 0x5C, CHR ''u'', CHR ''0'', CHR ''0'', hex_char (n div 16), hex_char (n mod 16)])"

definition encode_basestring_ascii :: "string \<Rightarrow> string" where
  "encode_basestring_ascii s = [CHR 0x22] @ concat (map escape_char s) @ [CHR 0x22]"

fun join :: "string \<Rightarrow> string list \<Rightarrow> string" where
  "join sep [] = []"
| "join sep [x] = x"
| "join sep (x # y # ys) = x @ sep @ join sep (y # ys)"

text \<open>\<open>json.dumps\<close> with its default separators \<open>', '\<close> and \<open>': '\<close>.\<close>

fun json_dumps :: "json \<Rightarrow> string" where
  "json_dumps JNull = ''null''"
| "json_dumps (JBool b) = (if b then ''true'' else ''false'')"
| "json_dumps (JInt i) = str_int i"
| "json_dumps (JStr s) = encode_basestring_ascii s"
| "json_dumps (JList xs) = ''['' @ join '', '' (map json_dumps xs) @ '']''"
| "json_dumps (JObj kvs) =
     ''{'' @ join '', '' (map (\<lambda>kv. encode_basestring_ascii (fst kv) @ '': '' @ json_dumps (snd kv)) kvs)
       @ ''}''"

text \<open>
  \<open>value[key]\<close> for a string key: a \<open>dict\<close> without the key raises \<open>KeyError\<close>, every
  other kind of value raises \<open>TypeError\<close>.
\<close>

fun getitem :: "json \<Rightarrow> string \<Rightarrow> py_error + json" where
  "getitem (JObj kvs) key = (case map_of kvs key of None \<Rightarrow> Inl KeyError | Some v \<Rightarrow> Inr v)"
| "getitem _ key = Inl TypeError"

subsection \<open>Base64 and the segment encoder\<close>

type_synonym byte = "8 word"

text \<open>The letter of the standard base64 alphabet for a six-bit value, as its ASCII code.\<close>

definition b64_char :: "nat \<Rightarrow> byte" where
  "b64_char i =
     (if i < 26 then of_nat (65 + i)
      else if i < 52 then of_nat (71 + i)
      else if i < 62 then of_nat (i - 4)
      else if i = 62 then 43
      else 47)"

definition b64_pad :: byte where
  "b64_pad = 61"

text \<open>
  \<open>base64.b64encode\<close>: three bytes give four letters; a last group of one or two bytes
  gives two or three letters and is padded with \<open>=\<close> to four.
\<close>

fun b64encode :: "byte list \<Rightarrow> byte list" where
  "b64encode [] = []"
| "b64encode [a] =
     (let n = unat a * 65536
      in [b64_char (n div 262144), b64_char (n div 4096 mod 64), b64_pad, b64_pad])"
| "b64encode [a, b] =
     (let n = unat a * 65536 + unat b * 256
      in [b64_char (n div 262144), b64_char (n div 4096 mod 64), b64_char (n div 64 mod 64), b64_pad])"
| "b64encode (a # b # c # rest) =
     (let n = unat a * 65536 + unat b * 256 + unat c
      in [b64_char (n div 262144), b64_char (n div 4096 mod 64), b64_char (n div 64 mod 64),
          b64_char (n mod 64)] @ b64encode rest)"

text \<open>
  \<open>str(encoded, encoding="utf-8")\<close> for the bytes base64 produces: all of them are
  ASCII, where UTF-8 decodes one byte to the character of the same code.
\<close>

definition str_utf8 :: "byte list \<Rightarrow> string" where
  "str_utf8 bs = map (\<lambda>b. char_of (unat b)) bs"

text \<open>
  The two library functions \<open>log\<close> calls on its way to the queue, taken as parameters:
  \<open>render\<close> is what \<open>Console.print\<close> of rich appends to the record buffer for the given
  objects (it reads the console, whose width the listener may have changed), and
  \<open>pickle_dumps\<close> is \<open>pickle.dumps(segments, protocol=3)\<close>.
\<close>

record 'seg DevtoolsConsole =
  width :: json
  height :: json
  recording :: bool
  record_buffer :: "'seg list"

record ('obj, 'seg) library =
  render :: "'seg DevtoolsConsole \<Rightarrow> 'obj list \<Rightarrow> 'seg list"
  pickle_dumps :: "'seg list \<Rightarrow> byte list"

definition encode_segments :: "('obj, 'seg) library \<Rightarrow> 'seg list \<Rightarrow> string" where
  "encode_segments lib segments =
     (let pickled = pickle_dumps lib segments;
          encoded = b64encode pickled
      in str_utf8 encoded)"

subsection \<open>The recording console\<close>

text \<open>
  \<open>DevtoolsConsole.__init__\<close> builds a rich console and switches recording on. The
  dimensions are those rich detects. The listener assigns whatever the server's payload
  holds to \<open>width\<close> and \<open>height\<close>, so both fields hold a JSON value.
\<close>

definition new_console :: "int \<Rightarrow> int \<Rightarrow> 'seg DevtoolsConsole" where
  "new_console w h = \<lparr>width = JInt w, height = JInt h, recording = True, record_buffer = []\<rparr>"

definition console_print :: "('obj, 'seg) library \<Rightarrow> 'seg DevtoolsConsole \<Rightarrow> 'obj list \<Rightarrow> 'seg DevtoolsConsole" where
  "console_print lib con objects =
     (if recording con then con\<lparr>record_buffer := record_buffer con @ render lib con objects\<rparr>
      else con)"

definition export_segments :: "'seg DevtoolsConsole \<Rightarrow> 'seg list \<times> 'seg DevtoolsConsole" where
  "export_segments con =
     (let segments = record_buffer con
      in (segments, con\<lparr>record_buffer := []\<rparr>))"

subsection \<open>The log queue\<close>

text \<open>
  \<open>asyncio.Queue\<close> as the module uses it: the items in order, the capacity, and the
  count of items put and not yet marked done. A capacity of zero or less means no bound.
\<close>

datatype item = Message string | ClientShutdown

record queue =
  items :: "item list"
  maxsize :: int
  unfinished_tasks :: int

definition Queue :: "int \<Rightarrow> queue" where
  "Queue m = \<lparr>items = [], maxsize = m, unfinished_tasks = 0\<rparr>"

definition qsize :: "queue \<Rightarrow> int" where
  "qsize q = int (length (items q))"

definition full :: "queue \<Rightarrow> bool" where
  "full q = (if maxsize q \<le> 0 then False else qsize q \<ge> maxsize q)"

definition put_nowait :: "queue \<Rightarrow> item \<Rightarrow> py_error + queue" where
  "put_nowait q x =
     (if full q then Inl QueueFull
      else Inr (q\<lparr>items := items q @ [x], unfinished_tasks := unfinished_tasks q + 1\<rparr>))"

text \<open>\<open>get\<close>: the first item and the rest; \<open>None\<close> when the queue is empty and the caller waits.\<close>

definition get :: "queue \<Rightarrow> (item \<times> queue) option" where
  "get q = (case items q of [] \<Rightarrow> None | x # xs \<Rightarrow> Some (x, q\<lparr>items := xs\<rparr>))"

definition task_done :: "queue \<Rightarrow> py_error + queue" where
  "task_done q =
     (if unfinished_tasks q \<le> 0 then Inl ValueError
      else Inr (q\<lparr>unfinished_tasks := unfinished_tasks q - 1\<rparr>))"

subsection \<open>Session, socket, tasks and the client\<close>

text \<open>
  Of aiohttp's session the module reads \<open>closed\<close> and calls \<open>close\<close>; of the websocket it
  reads \<open>closed\<close>, calls \<open>close\<close> and \<open>send_str\<close> and iterates over the frames received.
  \<open>ws_sent\<close> is what has been written to the socket, oldest first. Writing to a closed
  socket raises.
\<close>

record ClientSession =
  closed :: bool

record websocket =
  ws_closed :: bool
  ws_sent :: "string list"

definition send_str :: "websocket \<Rightarrow> string \<Rightarrow> py_error + websocket" where
  "send_str ws s =
     (if ws_closed ws then Inl ConnectionResetError
      else Inr (ws\<lparr>ws_sent := ws_sent ws @ [s]\<rparr>))"

text \<open>A task that was created: still scheduled, finished, or ended by an exception.\<close>

datatype task = Running | Finished | Failed py_error

record 'seg client =
  url :: string
  session :: "ClientSession option"
  log_queue_task :: "task option"
  update_console_task :: "task option"
  console :: "'seg DevtoolsConsole"
  websocket :: "websocket option"
  log_queue :: "queue option"
  spillover :: int

text \<open>\<open>DevtoolsClient.__init__\<close>; \<open>w\<close> and \<open>h\<close> are the dimensions rich gives the new console.\<close>

definition DevtoolsClient :: "string \<Rightarrow> int \<Rightarrow> int \<Rightarrow> int \<Rightarrow> 'seg client" where
  "DevtoolsClient host port w h =
     \<lparr>url = ''ws://'' @ host @ '':'' @ str_int port,
      session = None,
      log_queue_task = None,
      update_console_task = None,
      console = new_console w h,
      websocket = None,
      log_queue = None,
      spillover = 0\<rparr>"

subsection \<open>\<open>DevtoolsClient.log\<close>\<close>

definition log_message :: "int \<Rightarrow> string \<Rightarrow> int \<Rightarrow> string \<Rightarrow> string" where
  "log_message timestamp path lineno encoded_segments =
     json_dumps (JObj
       [(''type'', JStr ''client_log''),
        (''payload'', JObj
           [(''timestamp'', JInt timestamp),
            (''path'', JStr path),
            (''line_number'', JInt lineno),
            (''encoded_segments'', JStr encoded_segments)])])"

definition spillover_message :: "int \<Rightarrow> string" where
  "spillover_message n =
     json_dumps (JObj
       [(''type'', JStr ''client_spillover''),
        (''payload'', JObj [(''spillover'', JInt n)])])"

text \<open>
  The body of the \<open>try\<close>: the pair is the exception that left it, if any, and the client
  as it is at that point.
\<close>

definition log_try :: "'seg client \<Rightarrow> string \<Rightarrow> py_error option \<times> 'seg client" where
  "log_try self message =
     (case log_queue self of
        None \<Rightarrow> (None, self)
      | Some q \<Rightarrow>
          (case put_nowait q (Message message) of
             Inl e \<Rightarrow> (Some e, self)
           | Inr q1 \<Rightarrow>
               (let self1 = self\<lparr>log_queue := Some q1\<rparr>
                in if spillover self1 > 0 \<and> qsize q1 < LOG_QUEUE_MAXSIZE then
                     (case put_nowait q1 (Message (spillover_message (spillover self1))) of
                        Inl e \<Rightarrow> (Some e, self1)
                      | Inr q2 \<Rightarrow> (None, self1\<lparr>log_queue := Some q2, spillover := 0\<rparr>))
                   else (None, self1))))"

text \<open>
  \<open>log(*objects, path, lineno)\<close>; \<open>now\<close> is the clock's
  \<open>int(datetime.datetime.utcnow().timestamp())\<close>.
\<close>

definition log :: "('obj, 'seg) library \<Rightarrow> 'seg client \<Rightarrow> 'obj list \<Rightarrow> string \<Rightarrow> int \<Rightarrow> int \<Rightarrow> 'seg client outcome" where
  "log lib self objects path lineno now =
     (let printed = console_print lib (console self) objects;
          (segments, exported) = export_segments printed;
          self0 = self\<lparr>console := exported\<rparr>;
          encoded_segments = encode_segments lib segments;
          message = log_message now path lineno encoded_segments
      in case log_try self0 message of
           (None, self1) \<Rightarrow> Returns self1
         | (Some e, self1) \<Rightarrow>
             (if e = QueueFull then Returns (self1\<lparr>spillover := spillover self1 + 1\<rparr>)
              else Raises e self1))"

subsection \<open>\<open>DevtoolsClient.connect\<close>\<close>

text \<open>
  What \<open>session.ws_connect\<close> answers is the network's: the socket opens, or the call
  raises. \<open>ClientConnectorError\<close> and \<open>ClientResponseError\<close> stand for the classes and
  their subclasses (a refused connection, a failed name resolution, a handshake the
  server rejects); \<open>TimeoutError\<close> is neither. The URL and \<open>WEBSOCKET_CONNECT_TIMEOUT\<close>
  go to aiohttp with the call and bear on its answer only.
\<close>

datatype ws_connect_result = WsOpens | WsRaises py_error

definition new_session :: ClientSession where
  "new_session = \<lparr>closed = False\<rparr>"

definition new_websocket :: websocket where
  "new_websocket = \<lparr>ws_closed = False, ws_sent = []\<rparr>"

definition connect :: "'seg client \<Rightarrow> ws_connect_result \<Rightarrow> 'seg client outcome" where
  "connect self answer =
     (let self1 = self\<lparr>session := Some new_session, log_queue := Some (Queue LOG_QUEUE_MAXSIZE)\<rparr>
      in case answer of
           WsRaises e \<Rightarrow>
             (if e = ClientConnectorError \<or> e = ClientResponseError
              then Raises DevtoolsConnectionError self1
              else Raises e self1)
         | WsOpens \<Rightarrow>
             Returns (self1\<lparr>websocket := Some new_websocket,
                            log_queue_task := Some Running,
                            update_console_task := Some Running\<rparr>))"

subsection \<open>The listener: \<open>update_console\<close>\<close>

text \<open>
  A frame has a type and its data. \<open>json.loads\<close> is the standard library's: the data
  of a frame is given by what \<open>json.loads\<close> makes of it, a \<open>JSONDecodeError\<close> or the
  decoded value.
\<close>

datatype WSMsgType = CONTINUATION | TEXT | BINARY | PING | PONG | CLOSE | CLOSING | CLOSED | ERROR

datatype frame_data = Malformed | Wellformed json

record ws_message =
  mtype :: WSMsgType
  data :: frame_data

fun json_loads :: "frame_data \<Rightarrow> py_error + json" where
  "json_loads Malformed = Inl JSONDecodeError"
| "json_loads (Wellformed v) = Inr v"

text \<open>
  The body of the \<open>async for\<close>, for one frame: the exception that left it, if any, and
  the console as it is then.
\<close>

definition handle_message :: "'seg DevtoolsConsole \<Rightarrow> ws_message \<Rightarrow> py_error option \<times> 'seg DevtoolsConsole" where
  "handle_message con message =
     (if mtype message = TEXT then
        (case json_loads (data message) of
           Inl e \<Rightarrow> (Some e, con)
         | Inr message_json \<Rightarrow>
             (case getitem message_json ''type'' of
                Inl e \<Rightarrow> (Some e, con)
              | Inr t \<Rightarrow>
                  (if t = JStr ''server_info'' then
                     (case getitem message_json ''payload'' of
                        Inl e \<Rightarrow> (Some e, con)
                      | Inr payload \<Rightarrow>
                          (case getitem payload ''width'' of
                             Inl e \<Rightarrow> (Some e, con)
                           | Inr w \<Rightarrow>
                               (let con1 = con\<lparr>width := w\<rparr>
                                in case getitem payload ''height'' of
                                     Inl e \<Rightarrow> (Some e, con1)
                                   | Inr h \<Rightarrow> (None, con1\<lparr>height := h\<rparr>))))
                   else (None, con))))
      else (None, con))"

text \<open>
  The listener over the frames received so far. The iteration over the websocket ends
  at a closing frame; an exception ends the task; with no frame left the task waits.
\<close>

fun update_console :: "'seg DevtoolsConsole \<Rightarrow> ws_message list \<Rightarrow> task \<times> 'seg DevtoolsConsole" where
  "update_console con [] = (Running, con)"
| "update_console con (message # rest) =
     (if mtype message = CLOSE \<or> mtype message = CLOSING \<or> mtype message = CLOSED
      then (Finished, con)
      else (case handle_message con message of
              (Some e, con1) \<Rightarrow> (Failed e, con1)
            | (None, con1) \<Rightarrow> update_console con1 rest))"

subsection \<open>The sender: \<open>send_queued_logs\<close>\<close>

lemma get_shorter: "get q = Some (x, q1) \<Longrightarrow> length (items q1) < length (items q)"
  by (auto simp: get_def split: list.splits)

lemma task_done_items: "task_done q = Inr q1 \<Longrightarrow> items q1 = items q"
  by (auto simp: task_done_def split: if_splits)

text \<open>
  The sender runs until the queue is empty (it then waits in \<open>get\<close>, still scheduled),
  until it takes the sentinel, or until an exception ends it.
\<close>

function send_queued_logs :: "queue \<Rightarrow> websocket \<Rightarrow> task \<times> queue \<times> websocket" where
  "send_queued_logs q ws =
     (case get q of
        None \<Rightarrow> (Running, q, ws)
      | Some (x, q1) \<Rightarrow>
          (case x of
             ClientShutdown \<Rightarrow>
               (case task_done q1 of
                  Inl e \<Rightarrow> (Failed e, q1, ws)
                | Inr q2 \<Rightarrow> (Finished, q2, ws))
           | Message text \<Rightarrow>
               (case send_str ws text of
                  Inl e \<Rightarrow> (Failed e, q1, ws)
                | Inr ws1 \<Rightarrow>
                    (case task_done q1 of
                       Inl e \<Rightarrow> (Failed e, q1, ws1)
                     | Inr q2 \<Rightarrow> send_queued_logs q2 ws1))))"
  by pat_completeness auto
termination
  by (relation "measure (\<lambda>(q, ws). length (items q))")
     (auto dest!: get_shorter task_done_items)

declare send_queued_logs.simps [simp del]

text \<open>
  The sender task of a client, given the processor until it stops. Its closure holds
  the queue and the socket of the \<open>connect\<close> call that created it: the client's own, as
  long as \<open>connect\<close> is not called a second time.
\<close>

definition run_sender :: "'seg client \<Rightarrow> 'seg client" where
  "run_sender self =
     (case (log_queue_task self, log_queue self, websocket self) of
        (Some Running, Some q, Some ws) \<Rightarrow>
          (let (t, q1, ws1) = send_queued_logs q ws
           in self\<lparr>log_queue_task := Some t, log_queue := Some q1, websocket := Some ws1\<rparr>)
      | _ \<Rightarrow> self)"

subsection \<open>\<open>disconnect\<close> and \<open>is_connected\<close>\<close>

text \<open>
  \<open>await self.log_queue.put(ClientShutdown)\<close>: with a full queue the caller waits and
  the sender runs; if the queue is full still, nothing will ever make room.
\<close>

definition put :: "'seg client \<Rightarrow> queue \<Rightarrow> item \<Rightarrow> 'seg client outcome" where
  "put self q x =
     (let self1 = (if full q then run_sender self else self)
      in case log_queue self1 of
           None \<Rightarrow> Hangs self1
         | Some q1 \<Rightarrow>
             (case put_nowait q1 x of
                Inl e \<Rightarrow> Hangs self1
              | Inr q2 \<Rightarrow> Returns (self1\<lparr>log_queue := Some q2\<rparr>)))"

text \<open>\<open>await self.log_queue_task\<close>: the task's exception is raised in the caller.\<close>

definition await_log_queue_task :: "'seg client \<Rightarrow> 'seg client outcome" where
  "await_log_queue_task self =
     (let self1 = run_sender self
      in case log_queue_task self1 of
           None \<Rightarrow> Returns self1
         | Some Finished \<Rightarrow> Returns self1
         | Some (Failed e) \<Rightarrow> Raises e self1
         | Some Running \<Rightarrow> Hangs self1)"

definition stop_log_queue_processing :: "'seg client \<Rightarrow> 'seg client outcome" where
  "stop_log_queue_processing self =
     (case (case log_queue self of
              None \<Rightarrow> Returns self
            | Some q \<Rightarrow> put self q ClientShutdown) of
        Returns self1 \<Rightarrow>
          (case log_queue_task self1 of
             None \<Rightarrow> Returns self1
           | Some t \<Rightarrow> await_log_queue_task self1)
      | Raises e self1 \<Rightarrow> Raises e self1
      | Hangs self1 \<Rightarrow> Hangs self1)"

definition ws_close :: "websocket \<Rightarrow> websocket" where
  "ws_close ws = ws\<lparr>ws_closed := True\<rparr>"

definition session_close :: "ClientSession \<Rightarrow> ClientSession" where
  "session_close s = s\<lparr>closed := True\<rparr>"

text \<open>What the iteration over a closed websocket receives.\<close>

definition closed_message :: ws_message where
  "closed_message = \<lparr>mtype = CLOSED, data = Malformed\<rparr>"

text \<open>
  \<open>await self.update_console_task\<close>: a listener still scheduled ends once its socket
  is closed, and waits for the next frame for ever otherwise.
\<close>

definition await_update_console_task :: "'seg client \<Rightarrow> 'seg client outcome" where
  "await_update_console_task self =
     (case update_console_task self of
        None \<Rightarrow> Returns self
      | Some Finished \<Rightarrow> Returns self
      | Some (Failed e) \<Rightarrow> Raises e self
      | Some Running \<Rightarrow>
          (case websocket self of
             None \<Rightarrow> Hangs self
           | Some ws \<Rightarrow>
               (if ws_closed ws then
                  (case update_console (console self) [closed_message] of
                     (Failed e, con) \<Rightarrow> Raises e (self\<lparr>console := con, update_console_task := Some (Failed e)\<rparr>)
                   | (Running, con) \<Rightarrow> Hangs (self\<lparr>console := con\<rparr>)
                   | (Finished, con) \<Rightarrow> Returns (self\<lparr>console := con, update_console_task := Some Finished\<rparr>))
                else Hangs self)))"

definition stop_incoming_message_processing :: "'seg client \<Rightarrow> 'seg client outcome" where
  "stop_incoming_message_processing self =
     (let self1 = (case websocket self of
                     None \<Rightarrow> self
                   | Some ws \<Rightarrow> self\<lparr>websocket := Some (ws_close ws)\<rparr>)
      in case (case update_console_task self1 of
                 None \<Rightarrow> Returns self1
               | Some t \<Rightarrow> await_update_console_task self1) of
           Returns self2 \<Rightarrow>
             Returns (case session self2 of
                        None \<Rightarrow> self2
                      | Some s \<Rightarrow> self2\<lparr>session := Some (session_close s)\<rparr>)
         | Raises e self2 \<Rightarrow> Raises e self2
         | Hangs self2 \<Rightarrow> Hangs self2)"

definition disconnect :: "'seg client \<Rightarrow> 'seg client outcome" where
  "disconnect self =
     (case stop_log_queue_processing self of
        Returns self1 \<Rightarrow> stop_incoming_message_processing self1
      | Raises e self1 \<Rightarrow> Raises e self1
      | Hangs self1 \<Rightarrow> Hangs self1)"

definition is_connected :: "'seg client \<Rightarrow> bool" where
  "is_connected self =
     (case session self of
        None \<Rightarrow> False
      | Some s \<Rightarrow>
          (case websocket self of
             None \<Rightarrow> False
           | Some ws \<Rightarrow> \<not> (closed s \<or> ws_closed ws)))"

section \<open>Notions for stating the properties\<close>

subsection \<open>The outcome of \<open>log\<close>, and callers that log repeatedly\<close>

fun state_of :: "'s outcome \<Rightarrow> 's" where
  "state_of (Returns s) = s"
| "state_of (Raises e s) = s"
| "state_of (Hangs s) = s"

text \<open>
  The text \<open>log\<close> builds on a console for one call, and the console it leaves: the
  record buffer is exported into the text and cleared.
\<close>

definition log_text :: "('obj, 'seg) library \<Rightarrow> 'seg DevtoolsConsole \<Rightarrow> 'obj list \<Rightarrow> string \<Rightarrow> int \<Rightarrow> int \<Rightarrow> string" where
  "log_text lib con objects path lineno now =
     log_message now path lineno
       (encode_segments lib (record_buffer (console_print lib con objects)))"

definition log_console :: "('obj, 'seg) library \<Rightarrow> 'seg DevtoolsConsole \<Rightarrow> 'obj list \<Rightarrow> 'seg DevtoolsConsole" where
  "log_console lib con objects = (console_print lib con objects)\<lparr>record_buffer := []\<rparr>"

text \<open>A caller that issues one call of \<open>log\<close> after another; a call is its arguments and the time.\<close>

type_synonym 'obj call = "'obj list \<times> string \<times> int \<times> int"

fun log_calls :: "('obj, 'seg) library \<Rightarrow> 'seg client \<Rightarrow> 'obj call list \<Rightarrow> 'seg client outcome" where
  "log_calls lib self [] = Returns self"
| "log_calls lib self ((objects, path, lineno, now) # rest) =
     (case log lib self objects path lineno now of
        Returns self1 \<Rightarrow> log_calls lib self1 rest
      | Raises e self1 \<Rightarrow> Raises e self1
      | Hangs self1 \<Rightarrow> Hangs self1)"

text \<open>The texts the calls build, in the order of the calls, and the console they leave.\<close>

fun log_texts :: "('obj, 'seg) library \<Rightarrow> 'seg DevtoolsConsole \<Rightarrow> 'obj call list \<Rightarrow> string list" where
  "log_texts lib con [] = []"
| "log_texts lib con ((objects, path, lineno, now) # rest) =
     log_text lib con objects path lineno now # log_texts lib (log_console lib con objects) rest"

fun log_consoles :: "('obj, 'seg) library \<Rightarrow> 'seg DevtoolsConsole \<Rightarrow> 'obj call list \<Rightarrow> 'seg DevtoolsConsole" where
  "log_consoles lib con [] = con"
| "log_consoles lib con ((objects, path, lineno, now) # rest) =
     log_consoles lib (log_console lib con objects) rest"

subsection \<open>The decoder\<close>

text \<open>
  Modelled from the spec: the decoder is on the server's side and not among the source
  files; the specification names it as base64-decoding followed by unpickling. This is
  the inverse of the alphabet: the six-bit value of a letter, none for any other byte.
\<close>

definition b64_index :: "byte \<Rightarrow> nat option" where
  "b64_index c =
     (let n = unat c in
      if 65 \<le> n \<and> n \<le> 90 then Some (n - 65)
      else if 97 \<le> n \<and> n \<le> 122 then Some (n - 71)
      else if 48 \<le> n \<and> n \<le> 57 then Some (n + 4)
      else if n = 43 then Some 62
      else if n = 47 then Some 63
      else None)"

text \<open>
  Modelled from the spec: strict base64 decoding, four letters to three bytes, with a
  last group padded by one or two \<open>=\<close>; any other input is refused.
\<close>

fun b64decode :: "byte list \<Rightarrow> byte list option" where
  "b64decode [] = Some []"
| "b64decode (c1 # c2 # c3 # c4 # rest) =
     (case (b64_index c1, b64_index c2) of
        (Some i, Some j) \<Rightarrow>
          (if rest = [] \<and> c3 = b64_pad \<and> c4 = b64_pad then
             Some [of_nat ((i * 262144 + j * 4096) div 65536)]
           else
             (case b64_index c3 of
                None \<Rightarrow> None
              | Some k \<Rightarrow>
                  (if rest = [] \<and> c4 = b64_pad then
                     (let n = i * 262144 + j * 4096 + k * 64
                      in Some [of_nat (n div 65536), of_nat (n div 256 mod 256)])
                   else
                     (case b64_index c4 of
                        None \<Rightarrow> None
                      | Some l \<Rightarrow>
                          (let n = i * 262144 + j * 4096 + k * 64 + l
                           in case b64decode rest of
                                None \<Rightarrow> None
                              | Some bs \<Rightarrow>
                                  Some (of_nat (n div 65536) # of_nat (n div 256 mod 256)
                                        # of_nat (n mod 256) # bs))))))
      | _ \<Rightarrow> None)"
| "b64decode _ = None"

text \<open>
  Modelled from the spec: the bytes of the encoded string, which the decoder hands to
  base64.
\<close>

definition ascii_bytes :: "string \<Rightarrow> byte list" where
  "ascii_bytes s = map (\<lambda>c. of_nat (of_char c)) s"

text \<open>
  Modelled from the spec: \<open>decode\<close> is base64-decode, then unpickle; \<open>pickle_loads\<close> is
  \<open>pickle.loads\<close>, a parameter as \<open>pickle_dumps\<close> is.
\<close>

definition decode_segments :: "(byte list \<Rightarrow> 'seg list option) \<Rightarrow> string \<Rightarrow> 'seg list option" where
  "decode_segments pickle_loads encoded =
     (case b64decode (ascii_bytes encoded) of
        None \<Rightarrow> None
      | Some pickled \<Rightarrow> pickle_loads pickled)"

subsection \<open>A concrete client\<close>

text \<open>
  A library to run the definitions on: the objects are strings, a segment is one byte
  of a string, and pickling a list of bytes is the list itself.
\<close>

definition example_library :: "(string, byte) library" where
  "example_library =
     \<lparr>render = (\<lambda>con objects. concat (map (map (\<lambda>c. of_nat (of_char c))) objects)),
      pickle_dumps = (\<lambda>segments. segments)\<rparr>"

definition fresh_client :: "byte client" where
  "fresh_client = DevtoolsClient ''127.0.0.1'' DEFAULT_PORT 80 25"

definition connected_client :: "byte client" where
  "connected_client = state_of (connect fresh_client WsOpens)"

text \<open>
  A client at \<open>n\<close> queued records with three records lost so far.
\<close>

definition queue_of_size :: "nat \<Rightarrow> queue" where
  "queue_of_size n =
     \<lparr>items = replicate n (Message ''m''), maxsize = LOG_QUEUE_MAXSIZE, unfinished_tasks = int n\<rparr>"

definition spilled_client :: "nat \<Rightarrow> byte client" where
  "spilled_client n = connected_client\<lparr>log_queue := Some (queue_of_size n), spillover := 3\<rparr>"

text \<open>The client \<open>connect\<close> returned, after \<open>disconnect\<close>.\<close>

definition disconnected_client :: "byte client" where
  "disconnected_client =
     connected_client\<lparr>session := Some \<lparr>closed = True\<rparr>,
        log_queue_task := Some Finished,
        update_console_task := Some Finished,
        websocket := Some \<lparr>ws_closed = True, ws_sent = []\<rparr>\<rparr>"



section \<open>Properties\<close>

subsection \<open>What one call of \<open>log\<close> does\<close>

lemma log_unfold:
  "log lib self objects path lineno now =
     (case log_try (self\<lparr>console := log_console lib (console self) objects\<rparr>)
             (log_text lib (console self) objects path lineno now) of
        (None, self1) \<Rightarrow> Returns self1
      | (Some e, self1) \<Rightarrow>
          (if e = QueueFull then Returns (self1\<lparr>spillover := spillover self1 + 1\<rparr>)
           else Raises e self1))"
  by (simp add: log_def log_text_def log_console_def export_segments_def Let_def)


lemma log_full:
  assumes "log_queue self = Some q" "full q"
  shows "log lib self objects path lineno now =
     Returns (self\<lparr>console := log_console lib (console self) objects,
                   spillover := spillover self + 1\<rparr>)"
  using assms by (simp add: log_unfold log_try_def put_nowait_def)

lemma log_room0:
  assumes "log_queue self = Some q" "maxsize q = LOG_QUEUE_MAXSIZE"
    "qsize q < LOG_QUEUE_MAXSIZE" "spillover self \<le> 0"
  shows "log lib self objects path lineno now =
     Returns (self\<lparr>console := log_console lib (console self) objects,
        log_queue := Some (q\<lparr>items := items q @ [Message (log_text lib (console self) objects path lineno now)],
           unfinished_tasks := unfinished_tasks q + 1\<rparr>)\<rparr>)"
  using assms
  by (simp add: log_unfold log_try_def put_nowait_def full_def qsize_def Let_def LOG_QUEUE_MAXSIZE_def)

lemma log_room1:
  assumes "log_queue self = Some q" "maxsize q = LOG_QUEUE_MAXSIZE"
    "qsize q + 1 = LOG_QUEUE_MAXSIZE"
  shows "log lib self objects path lineno now =
     Returns (self\<lparr>console := log_console lib (console self) objects,
        log_queue := Some (q\<lparr>items := items q @ [Message (log_text lib (console self) objects path lineno now)],
           unfinished_tasks := unfinished_tasks q + 1\<rparr>)\<rparr>)"
  using assms
  by (simp add: log_unfold log_try_def put_nowait_def full_def qsize_def Let_def LOG_QUEUE_MAXSIZE_def)

lemma log_room2:
  assumes "log_queue self = Some q" "maxsize q = LOG_QUEUE_MAXSIZE"
    "qsize q + 2 \<le> LOG_QUEUE_MAXSIZE" "spillover self > 0"
  shows "log lib self objects path lineno now =
     Returns (self\<lparr>console := log_console lib (console self) objects,
        log_queue := Some (q\<lparr>items := items q @
              [Message (log_text lib (console self) objects path lineno now),
               Message (spillover_message (spillover self))],
           unfinished_tasks := unfinished_tasks q + 2\<rparr>),
        spillover := 0\<rparr>)"
  using assms
  by (simp add: log_unfold log_try_def put_nowait_def full_def qsize_def Let_def LOG_QUEUE_MAXSIZE_def)

subsection \<open>Repeated calls of \<open>log\<close>\<close>

lemma log_calls_append:
  "log_calls lib self (xs @ ys) =
     (case log_calls lib self xs of
        Returns self1 \<Rightarrow> log_calls lib self1 ys
      | Raises e self1 \<Rightarrow> Raises e self1
      | Hangs self1 \<Rightarrow> Hangs self1)"
  by (induction xs arbitrary: self) (auto split: outcome.splits)

lemma log_calls_room:
  assumes "log_queue self = Some q" "maxsize q = LOG_QUEUE_MAXSIZE"
    "qsize q + int (length calls) \<le> LOG_QUEUE_MAXSIZE" "spillover self \<le> 0"
  shows "log_calls lib self calls =
     Returns (self\<lparr>console := log_consoles lib (console self) calls,
        log_queue := Some (q\<lparr>items := items q @ map Message (log_texts lib (console self) calls),
           unfinished_tasks := unfinished_tasks q + int (length calls)\<rparr>)\<rparr>)"
  using assms
proof (induction calls arbitrary: self q)
  case Nil
  then show ?case by (simp add: Nil.prems(1) [symmetric])
next
  case (Cons call calls)
  obtain objects path lineno now where call: "call = (objects, path, lineno, now)"
    by (cases call) auto
  let ?q1 = "q\<lparr>items := items q @ [Message (log_text lib (console self) objects path lineno now)],
         unfinished_tasks := unfinished_tasks q + 1\<rparr>"
  let ?self1 = "self\<lparr>console := log_console lib (console self) objects, log_queue := Some ?q1\<rparr>"
  have step: "log lib self objects path lineno now = Returns ?self1"
    using Cons.prems by (intro log_room0) (auto simp: qsize_def)
  have "log_calls lib ?self1 calls =
     Returns (?self1\<lparr>console := log_consoles lib (console ?self1) calls,
        log_queue := Some (?q1\<lparr>items := items ?q1 @ map Message (log_texts lib (console ?self1) calls),
           unfinished_tasks := unfinished_tasks ?q1 + int (length calls)\<rparr>)\<rparr>)"
    using Cons.prems by (intro Cons.IH) (auto simp: qsize_def)
  then show ?case
    using step by (simp add: call)
qed

lemma log_calls_full:
  assumes "log_queue self = Some q" "full q"
  shows "log_calls lib self calls =
     Returns (self\<lparr>console := log_consoles lib (console self) calls,
                   spillover := spillover self + int (length calls)\<rparr>)"
  using assms
proof (induction calls arbitrary: self)
  case Nil
  then show ?case by simp
next
  case (Cons call calls)
  obtain objects path lineno now where call: "call = (objects, path, lineno, now)"
    by (cases call) auto
  let ?self1 = "self\<lparr>console := log_console lib (console self) objects, spillover := spillover self + 1\<rparr>"
  have step: "log lib self objects path lineno now = Returns ?self1"
    using Cons.prems by (rule log_full)
  have "log_calls lib ?self1 calls =
     Returns (?self1\<lparr>console := log_consoles lib (console ?self1) calls,
                      spillover := spillover ?self1 + int (length calls)\<rparr>)"
    using Cons.prems by (intro Cons.IH) auto
  then show ?case
    using step by (simp add: call)
qed

subsection \<open>The concrete client\<close>

lemma connected_client_eq:
  "connected_client =
     fresh_client\<lparr>session := Some new_session,
                  log_queue := Some (Queue LOG_QUEUE_MAXSIZE),
                  websocket := Some new_websocket,
                  log_queue_task := Some Running,
                  update_console_task := Some Running\<rparr>"
  by (simp add: connected_client_def connect_def)

lemma example_log_console [simp]:
  "log_console example_library (new_console w h) objects = new_console w h"
  by (simp add: log_console_def console_print_def new_console_def)

lemma console_connected [simp]: "console connected_client = new_console 80 25"
  by (simp add: connected_client_eq fresh_client_def DevtoolsClient_def)

lemma console_spilled [simp]: "console (spilled_client n) = new_console 80 25"
  by (simp add: spilled_client_def)

lemma queue_of_size_simps [simp]:
  "maxsize (queue_of_size n) = LOG_QUEUE_MAXSIZE"
  "qsize (queue_of_size n) = int n"
  "items (queue_of_size n) = replicate n (Message ''m'')"
  "unfinished_tasks (queue_of_size n) = int n"
  by (simp_all add: queue_of_size_def qsize_def)

lemma spilled_client_simps [simp]:
  "log_queue (spilled_client n) = Some (queue_of_size n)"
  "spillover (spilled_client n) = 3"
  by (simp_all add: spilled_client_def)

text \<open>The texts of the concrete client, as Python prints them.\<close>

lemma digit_chars:
  "digit_char 0 = CHR ''0''" "digit_char 3 = CHR ''3''" "digit_char 5 = CHR ''5''"
  unfolding digit_char_def by code_simp+

lemma str_int_examples: "str_int 0 = ''0''" "str_int 3 = ''3''" "str_int 5 = ''5''"
  by (simp_all add: str_int_def str_nat.simps [of 0] str_nat.simps [of 3] str_nat.simps [of 5]
      digit_chars)

lemma spillover_message_example:
  \<open>spillover_message 3 = ''{"type": "client_spillover", "payload": {"spillover": 3}}''\<close>
  by (simp add: spillover_message_def encode_basestring_ascii_def escape_char_def str_int_examples)

lemma hello_encoded: "encode_segments example_library [104, 101, 108, 108, 111] = ''aGVsbG8=''"
proof -
  have "b64encode [104, 101, 108, 108, 111] = [97, 71, 86, 115, 98, 71, 56, 61]"
    by (simp add: b64_char_def b64_pad_def)
  moreover have "str_utf8 [97, 71, 86, 115, 98, 71, 56, 61] = ''aGVsbG8=''"
    unfolding str_utf8_def by code_simp
  ultimately show ?thesis
    by (simp add: encode_segments_def example_library_def)
qed

lemma log_text_example:
  \<open>log_text example_library (new_console 80 25) [''hello''] ''app.py'' 5 0 =
     ''{"type": "client_log", "payload": {"timestamp": 0, "path": "app.py", "line_number": 5, "encoded_segments": "aGVsbG8="}}''\<close>
proof -
  have "record_buffer (console_print example_library (new_console 80 25) [''hello'']) =
      [104, 101, 108, 108, 111]"
    by (simp add: console_print_def new_console_def example_library_def)
  then show ?thesis
    by (simp add: log_text_def hello_encoded log_message_def encode_basestring_ascii_def
        escape_char_def str_int_examples)
qed

lemma length_log_texts: "length (log_texts lib con calls) = length calls"
  by (induction calls arbitrary: con) auto

subsection \<open>The spillover notice (C1)\<close>

text \<open>
  Claim C1, as amended. For a client whose queue has the capacity of 512 and whose
  spillover counter is positive: a call of \<open>log\<close> that finds at least two free slots
  enqueues its own record, then exactly one spillover notice carrying the counter, and
  resets the counter to 0; a call that finds exactly one free slot enqueues its own
  record only, and the counter is left as it was for a later call. The notice is put
  only if the queue has room after the record is in.
\<close>

theorem spillover_notice_needs_two_slots:
  assumes "log_queue self = Some q" "maxsize q = LOG_QUEUE_MAXSIZE" "0 < spillover self"
  shows "(qsize q + 2 \<le> LOG_QUEUE_MAXSIZE \<longrightarrow>
            log lib self objects path lineno now =
              Returns (self\<lparr>console := log_console lib (console self) objects,
                 log_queue := Some (q\<lparr>items := items q @
                       [Message (log_text lib (console self) objects path lineno now),
                        Message (spillover_message (spillover self))],
                    unfinished_tasks := unfinished_tasks q + 2\<rparr>),
                 spillover := 0\<rparr>))
       \<and> (qsize q + 1 = LOG_QUEUE_MAXSIZE \<longrightarrow>
            log lib self objects path lineno now =
              Returns (self\<lparr>console := log_console lib (console self) objects,
                 log_queue := Some (q\<lparr>items := items q @
                       [Message (log_text lib (console self) objects path lineno now)],
                    unfinished_tasks := unfinished_tasks q + 1\<rparr>)\<rparr>))"
  using assms log_room2 [of self q lib objects path lineno now]
    log_room1 [of self q lib objects path lineno now]
  by blast

text \<open>The theorem at 510 and at 511 queued records.\<close>

theorem spillover_notice_needs_two_slots_witness:
  "log example_library (spilled_client 510) [''hello''] ''app.py'' 5 0 =
     Returns (connected_client\<lparr>
        log_queue := Some ((queue_of_size 510)\<lparr>items := replicate 510 (Message ''m'') @
              [Message (log_text example_library (new_console 80 25) [''hello''] ''app.py'' 5 0),
               Message (spillover_message 3)],
           unfinished_tasks := 512\<rparr>),
        spillover := 0\<rparr>)
   \<and> log example_library (spilled_client 511) [''hello''] ''app.py'' 5 0 =
     Returns (connected_client\<lparr>
        log_queue := Some ((queue_of_size 511)\<lparr>items := replicate 511 (Message ''m'') @
              [Message (log_text example_library (new_console 80 25) [''hello''] ''app.py'' 5 0)],
           unfinished_tasks := 512\<rparr>),
        spillover := 3\<rparr>)"
proof -
  have a: "log_queue (spilled_client 510) = Some (queue_of_size 510)"
    and b: "log_queue (spilled_client 511) = Some (queue_of_size 511)"
    and m: "maxsize (queue_of_size 510) = LOG_QUEUE_MAXSIZE"
      "maxsize (queue_of_size 511) = LOG_QUEUE_MAXSIZE"
    and s: "0 < spillover (spilled_client 510)" "0 < spillover (spilled_client 511)"
    by simp_all
  have two: "qsize (queue_of_size 510) + 2 \<le> LOG_QUEUE_MAXSIZE"
    and one: "qsize (queue_of_size 511) + 1 = LOG_QUEUE_MAXSIZE"
    by (simp_all add: LOG_QUEUE_MAXSIZE_def)
  show ?thesis
    using spillover_notice_needs_two_slots [OF a m(1) s(1), of example_library "[''hello'']" "''app.py''" 5 0]
      spillover_notice_needs_two_slots [OF b m(2) s(2), of example_library "[''hello'']" "''app.py''" 5 0]
      two one
    by (simp add: spilled_client_def)
qed

text \<open>
  The claim as the specification states it fails. The queue is at capacity with the
  counter at 3; the sender takes one record and marks it done; the next call of \<open>log\<close>
  puts its record into the one free slot, which fills the queue again: no notice is
  enqueued and the counter is still 3.
\<close>

theorem one_drained_slot_is_not_enough:
  "full (queue_of_size 512)
   \<and> get (queue_of_size 512) =
        Some (Message ''m'', (queue_of_size 512)\<lparr>items := replicate 511 (Message ''m'')\<rparr>)
   \<and> task_done ((queue_of_size 512)\<lparr>items := replicate 511 (Message ''m'')\<rparr>) =
        Inr (queue_of_size 511)
   \<and> log example_library (spilled_client 511) [''hello''] ''app.py'' 5 0 =
        Returns (connected_client\<lparr>
          log_queue := Some ((queue_of_size 511)\<lparr>items := replicate 511 (Message ''m'') @
              [Message (log_text example_library (new_console 80 25) [''hello''] ''app.py'' 5 0)],
            unfinished_tasks := 512\<rparr>),
          spillover := 3\<rparr>)"
proof -
  have "replicate 512 (Message ''m'') = Message ''m'' # replicate 511 (Message ''m'')"
    by (simp add: replicate_Suc [symmetric] del: replicate_Suc)
  moreover have "log_queue (spilled_client 511) = Some (queue_of_size 511)"
    "qsize (queue_of_size 511) + 1 = LOG_QUEUE_MAXSIZE"
    by (simp_all add: LOG_QUEUE_MAXSIZE_def)
  ultimately show ?thesis
    by (simp add: full_def get_def task_done_def log_room1 queue_of_size_def
        LOG_QUEUE_MAXSIZE_def qsize_def spilled_client_def)
qed

subsection \<open>Overflow is counted, not raised (C2, C4)\<close>

text \<open>
  Claim C2. A client whose queue has the capacity of 512: starting from the empty
  queue with the spillover counter at 0, a caller that issues \<open>512 + K\<close> calls of \<open>log\<close>
  with no draining has every call return, and is left with 512 queued records and the
  counter at \<open>K\<close>. A single call in any state of that queue returns, and it has
  incremented the counter exactly if the queue was full when it was called.
\<close>

theorem spillover_counts_overflow:
  assumes "log_queue self = Some q" "maxsize q = LOG_QUEUE_MAXSIZE"
  shows "(items q = [] \<and> spillover self = 0 \<and> length calls = nat LOG_QUEUE_MAXSIZE + K \<longrightarrow>
            (\<exists>self' q'. log_calls lib self calls = Returns self' \<and> log_queue self' = Some q'
                \<and> qsize q' = LOG_QUEUE_MAXSIZE \<and> spillover self' = int K))
       \<and> (\<exists>self'. log lib self objects path lineno now = Returns self'
                \<and> (spillover self' = spillover self + 1 \<longleftrightarrow> full q))"
proof (intro conjI impI)
  assume a: "items q = [] \<and> spillover self = 0 \<and> length calls = nat LOG_QUEUE_MAXSIZE + K"
  define xs where "xs = take (nat LOG_QUEUE_MAXSIZE) calls"
  define ys where "ys = drop (nat LOG_QUEUE_MAXSIZE) calls"
  have calls: "calls = xs @ ys" and lx: "length xs = nat LOG_QUEUE_MAXSIZE" and ly: "length ys = K"
    using a by (simp_all add: xs_def ys_def)
  let ?q1 = "q\<lparr>items := items q @ map Message (log_texts lib (console self) xs),
           unfinished_tasks := unfinished_tasks q + int (length xs)\<rparr>"
  let ?self1 = "self\<lparr>console := log_consoles lib (console self) xs, log_queue := Some ?q1\<rparr>"
  have first: "log_calls lib self xs = Returns ?self1"
    using assms a lx by (intro log_calls_room) (simp_all add: qsize_def LOG_QUEUE_MAXSIZE_def)
  have size1: "qsize ?q1 = LOG_QUEUE_MAXSIZE"
    using a lx by (simp add: qsize_def length_log_texts LOG_QUEUE_MAXSIZE_def)
  have full1: "full ?q1"
    using size1 assms(2) by (simp add: full_def LOG_QUEUE_MAXSIZE_def)
  have second: "log_calls lib ?self1 ys =
     Returns (?self1\<lparr>console := log_consoles lib (console ?self1) ys,
                      spillover := spillover ?self1 + int (length ys)\<rparr>)"
    using full1 by (intro log_calls_full) auto
  show "\<exists>self' q'. log_calls lib self calls = Returns self' \<and> log_queue self' = Some q'
                \<and> qsize q' = LOG_QUEUE_MAXSIZE \<and> spillover self' = int K"
    using first second size1 a ly by (simp add: calls log_calls_append)
next
  show "\<exists>self'. log lib self objects path lineno now = Returns self'
                \<and> (spillover self' = spillover self + 1 \<longleftrightarrow> full q)"
  proof (cases "full q")
    case True
    then show ?thesis using assms(1) by (simp add: log_full)
  next
    case False
    then show ?thesis
      using assms
      by (auto simp: log_unfold log_try_def put_nowait_def full_def qsize_def Let_def
          LOG_QUEUE_MAXSIZE_def)
  qed
qed

text \<open>The theorem for 515 calls on the client \<open>connect\<close> has just returned.\<close>

theorem spillover_counts_overflow_witness:
  "\<exists>self' q'. log_calls example_library connected_client
        (replicate 515 ([''hello''], ''app.py'', 5, 0)) = Returns self'
      \<and> log_queue self' = Some q' \<and> qsize q' = 512 \<and> spillover self' = 3"
proof -
  have q: "log_queue connected_client = Some (Queue LOG_QUEUE_MAXSIZE)"
    and s: "spillover connected_client = 0"
    by (simp_all add: connected_client_eq fresh_client_def DevtoolsClient_def)
  have m: "maxsize (Queue LOG_QUEUE_MAXSIZE) = LOG_QUEUE_MAXSIZE"
    and i: "items (Queue LOG_QUEUE_MAXSIZE) = []"
    by (simp_all add: Queue_def)
  have l: "length (replicate 515 ([''hello''], ''app.py'', 5::int, 0::int)) = nat LOG_QUEUE_MAXSIZE + 3"
    by (simp add: LOG_QUEUE_MAXSIZE_def)
  show ?thesis
    using spillover_counts_overflow [OF q m, of "replicate 515 ([''hello''], ''app.py'', 5, 0)" 3
        example_library, THEN conjunct1] i s l
    by (simp add: LOG_QUEUE_MAXSIZE_def)
qed



subsection \<open>Logging before \<open>connect\<close> (C10)\<close>



subsection \<open>A failed \<open>connect\<close> (C6)\<close>

text \<open>
  Claim C6, as amended. When \<open>ws_connect\<close> raises \<open>ClientConnectorError\<close> or
  \<open>ClientResponseError\<close>, \<open>connect\<close> raises \<open>DevtoolsConnectionError\<close>; the socket, the
  two task handles, the console and the spillover counter are as they were, and the
  client holds the new open session and the new empty queue of capacity 512 that
  \<open>connect\<close> stored before it tried the socket.
\<close>

theorem connect_failure_state:
  "connect self (WsRaises ClientConnectorError) =
     Raises DevtoolsConnectionError
       (self\<lparr>session := Some new_session, log_queue := Some (Queue LOG_QUEUE_MAXSIZE)\<rparr>)
   \<and> connect self (WsRaises ClientResponseError) =
     Raises DevtoolsConnectionError
       (self\<lparr>session := Some new_session, log_queue := Some (Queue LOG_QUEUE_MAXSIZE)\<rparr>)"
  by (simp add: connect_def)

text \<open>
  The claim as the specification states it fails: on the client as constructed, a
  refused connection leaves a session and a queue where there were none.
\<close>

theorem failed_connect_leaves_session_and_queue:
  "connect fresh_client (WsRaises ClientConnectorError) =
     Raises DevtoolsConnectionError
       (fresh_client\<lparr>session := Some \<lparr>closed = False\<rparr>,
                     log_queue := Some \<lparr>items = [], maxsize = 512, unfinished_tasks = 0\<rparr>\<rparr>)
   \<and> session fresh_client = None
   \<and> log_queue fresh_client = None
   \<and> session (state_of (connect fresh_client (WsRaises ClientConnectorError))) = Some \<lparr>closed = False\<rparr>
   \<and> log_queue (state_of (connect fresh_client (WsRaises ClientConnectorError))) =
        Some \<lparr>items = [], maxsize = 512, unfinished_tasks = 0\<rparr>"
  by (simp add: connect_def fresh_client_def DevtoolsClient_def new_session_def Queue_def
      LOG_QUEUE_MAXSIZE_def)

subsection \<open>Frames from the server (C7)\<close>




subsection \<open>\<open>is_connected\<close> (C9)\<close>

lemma await_update_console_task_frame:
  assumes "await_update_console_task self = Returns self'"
  shows "websocket self' = websocket self \<and> session self' = session self"
proof (cases "update_console_task self")
  case None
  then show ?thesis using assms by (simp add: await_update_console_task_def)
next
  case (Some t)
  show ?thesis
  proof (cases t)
    case Running
    then show ?thesis
      using assms Some
      by (auto simp: await_update_console_task_def closed_message_def
          split: option.splits if_splits)
  next
    case Finished
    then show ?thesis using assms Some by (simp add: await_update_console_task_def)
  next
    case (Failed e)
    then show ?thesis using assms Some by (simp add: await_update_console_task_def)
  qed
qed

lemma stop_incoming_not_connected:
  assumes "stop_incoming_message_processing self = Returns self'"
  shows "\<not> is_connected self'"
proof -
  define self1 where "self1 = (case websocket self of None \<Rightarrow> self
                   | Some ws \<Rightarrow> self\<lparr>websocket := Some (ws_close ws)\<rparr>)"
  have w1: "websocket self1 = None \<or> (\<exists>ws. websocket self1 = Some ws \<and> ws_closed ws)"
    by (auto simp: self1_def ws_close_def split: option.splits)
  obtain self2 where a: "(case update_console_task self1 of None \<Rightarrow> Returns self1
               | Some t \<Rightarrow> await_update_console_task self1) = Returns self2"
    and r: "self' = (case session self2 of None \<Rightarrow> self2
                      | Some s \<Rightarrow> self2\<lparr>session := Some (session_close s)\<rparr>)"
    using assms unfolding stop_incoming_message_processing_def self1_def [symmetric] Let_def
    by (cases "case update_console_task self1 of None \<Rightarrow> Returns self1
               | Some t \<Rightarrow> await_update_console_task self1") auto
  have w2: "websocket self2 = websocket self1"
    using a await_update_console_task_frame [of self1 self2]
    by (cases "update_console_task self1") auto
  show ?thesis
    using w1 w2 r by (auto simp: is_connected_def session_close_def split: option.splits)
qed

text \<open>
  Claim C9. \<open>is_connected\<close> is true exactly if the client has a session and a
  websocket and neither reports closed. It is false on the client as constructed,
  false on the client a \<open>disconnect\<close> has returned, false once the websocket reports
  closed and false once the session does.
\<close>

theorem is_connected_iff:
  "(is_connected self \<longleftrightarrow>
      (\<exists>s ws. session self = Some s \<and> websocket self = Some ws \<and> \<not> closed s \<and> \<not> ws_closed ws))
   \<and> \<not> is_connected (DevtoolsClient host port w h)
   \<and> (disconnect self = Returns self' \<longrightarrow> \<not> is_connected self')
   \<and> (websocket self = Some ws \<and> ws_closed ws \<longrightarrow> \<not> is_connected self)
   \<and> (session self = Some s \<and> closed s \<longrightarrow> \<not> is_connected self)"
proof (intro conjI impI)
  show "is_connected self \<longleftrightarrow>
      (\<exists>s ws. session self = Some s \<and> websocket self = Some ws \<and> \<not> closed s \<and> \<not> ws_closed ws)"
    by (auto simp: is_connected_def split: option.splits)
  show "\<not> is_connected (DevtoolsClient host port w h)"
    by (simp add: is_connected_def DevtoolsClient_def)
  show "\<not> is_connected self" if "websocket self = Some ws \<and> ws_closed ws"
    using that by (auto simp: is_connected_def split: option.splits)
  show "\<not> is_connected self" if "session self = Some s \<and> closed s"
    using that by (auto simp: is_connected_def split: option.splits)
  show "\<not> is_connected self'" if d: "disconnect self = Returns self'"
  proof -
    obtain self1 where "stop_incoming_message_processing self1 = Returns self'"
      using d by (auto simp: disconnect_def split: outcome.splits)
    then show ?thesis by (rule stop_incoming_not_connected)
  qed
qed

subsection \<open>The sender drains in order (C3, C5)\<close>

lemma send_empty:
  assumes "items q = []"
  shows "send_queued_logs q ws = (Running, q, ws)"
  using assms by (subst send_queued_logs.simps) (simp add: get_def)

lemma send_shutdown:
  assumes "items q = ClientShutdown # rest" "0 < unfinished_tasks q"
  shows "send_queued_logs q ws =
     (Finished, q\<lparr>items := rest, unfinished_tasks := unfinished_tasks q - 1\<rparr>, ws)"
  using assms by (subst send_queued_logs.simps) (simp add: get_def task_done_def)

lemma send_message:
  assumes "items q = Message m # rest" "0 < unfinished_tasks q" "\<not> ws_closed ws"
  shows "send_queued_logs q ws =
     send_queued_logs (q\<lparr>items := rest, unfinished_tasks := unfinished_tasks q - 1\<rparr>)
       (ws\<lparr>ws_sent := ws_sent ws @ [m]\<rparr>)"
  using assms by (subst send_queued_logs.simps) (simp add: get_def task_done_def send_str_def)

lemma send_message_closed:
  assumes "items q = Message m # rest" "ws_closed ws"
  shows "send_queued_logs q ws = (Failed ConnectionResetError, q\<lparr>items := rest\<rparr>, ws)"
  using assms by (subst send_queued_logs.simps) (simp add: get_def send_str_def)

lemma send_messages:
  assumes "items q = map Message ms @ rest" "int (length ms) \<le> unfinished_tasks q" "\<not> ws_closed ws"
  shows "send_queued_logs q ws =
     send_queued_logs (q\<lparr>items := rest, unfinished_tasks := unfinished_tasks q - int (length ms)\<rparr>)
       (ws\<lparr>ws_sent := ws_sent ws @ ms\<rparr>)"
  using assms
proof (induction ms arbitrary: q ws)
  case Nil
  then have "q\<lparr>items := rest\<rparr> = q" by simp
  then show ?case by simp
next
  case (Cons m ms)
  let ?q1 = "q\<lparr>items := map Message ms @ rest, unfinished_tasks := unfinished_tasks q - 1\<rparr>"
  let ?ws1 = "ws\<lparr>ws_sent := ws_sent ws @ [m]\<rparr>"
  have "send_queued_logs q ws = send_queued_logs ?q1 ?ws1"
    using Cons.prems by (intro send_message) auto
  also have "\<dots> = send_queued_logs
       (?q1\<lparr>items := rest, unfinished_tasks := unfinished_tasks ?q1 - int (length ms)\<rparr>)
       (?ws1\<lparr>ws_sent := ws_sent ?ws1 @ ms\<rparr>)"
    using Cons.prems by (intro Cons.IH) auto
  finally show ?case by (simp add: algebra_simps)
qed

lemma run_sender_running:
  assumes "log_queue_task self = Some Running" "log_queue self = Some q" "websocket self = Some ws"
    "send_queued_logs q ws = (t, q1, ws1)"
  shows "run_sender self = self\<lparr>log_queue_task := Some t, log_queue := Some q1, websocket := Some ws1\<rparr>"
  using assms by (simp add: run_sender_def)

lemma drain_to_empty:
  assumes "items q = map Message ms" "int (length ms) \<le> unfinished_tasks q" "\<not> ws_closed ws"
  shows "send_queued_logs q ws =
     (Running, q\<lparr>items := [], unfinished_tasks := unfinished_tasks q - int (length ms)\<rparr>,
      ws\<lparr>ws_sent := ws_sent ws @ ms\<rparr>)"
proof -
  have "send_queued_logs q ws =
     send_queued_logs (q\<lparr>items := [], unfinished_tasks := unfinished_tasks q - int (length ms)\<rparr>)
       (ws\<lparr>ws_sent := ws_sent ws @ ms\<rparr>)"
    using assms by (intro send_messages) auto
  then show ?thesis by (simp add: send_empty)
qed

lemma drain_to_shutdown:
  assumes "items q = map Message ms @ ClientShutdown # rest" "int (length ms) < unfinished_tasks q"
    "\<not> ws_closed ws"
  shows "send_queued_logs q ws =
     (Finished, q\<lparr>items := rest, unfinished_tasks := unfinished_tasks q - int (length ms) - 1\<rparr>,
      ws\<lparr>ws_sent := ws_sent ws @ ms\<rparr>)"
proof -
  have "send_queued_logs q ws =
     send_queued_logs (q\<lparr>items := ClientShutdown # rest,
                         unfinished_tasks := unfinished_tasks q - int (length ms)\<rparr>)
       (ws\<lparr>ws_sent := ws_sent ws @ ms\<rparr>)"
    using assms by (intro send_messages) auto
  also have "\<dots> = (Finished, q\<lparr>items := rest, unfinished_tasks := unfinished_tasks q - int (length ms) - 1\<rparr>,
      ws\<lparr>ws_sent := ws_sent ws @ ms\<rparr>)"
    using assms
    by (subst send_shutdown [where rest = rest]) auto
  finally show ?thesis .
qed

lemma stop_log_queue_processing_sends_all:
  assumes q: "log_queue self = Some q" and i: "items q = map Message ms"
    and u: "int (length ms) \<le> unfinished_tasks q"
    and w: "websocket self = Some ws" and o: "\<not> ws_closed ws"
    and t: "log_queue_task self = Some Running"
  shows "stop_log_queue_processing self =
     Returns (self\<lparr>log_queue_task := Some Finished,
        log_queue := Some (q\<lparr>items := [], unfinished_tasks := unfinished_tasks q - int (length ms)\<rparr>),
        websocket := Some (ws\<lparr>ws_sent := ws_sent ws @ ms\<rparr>)\<rparr>)"
proof (cases "full q")
  case True
  let ?q1 = "q\<lparr>items := [], unfinished_tasks := unfinished_tasks q - int (length ms)\<rparr>"
  let ?ws1 = "ws\<lparr>ws_sent := ws_sent ws @ ms\<rparr>"
  let ?self1 = "self\<lparr>log_queue_task := Some Running, log_queue := Some ?q1, websocket := Some ?ws1\<rparr>"
  have r1: "run_sender self = ?self1"
    using t q w drain_to_empty [OF i u o] by (rule run_sender_running)
  let ?q2 = "?q1\<lparr>items := [ClientShutdown], unfinished_tasks := unfinished_tasks ?q1 + 1\<rparr>"
  have p: "put_nowait ?q1 ClientShutdown = Inr ?q2"
    by (simp add: put_nowait_def full_def qsize_def)
  let ?self2 = "?self1\<lparr>log_queue := Some ?q2\<rparr>"
  have put: "put self q ClientShutdown = Returns ?self2"
    using True r1 p by (simp add: put_def)
  have "send_queued_logs ?q2 ?ws1 =
      (Finished, ?q2\<lparr>items := [], unfinished_tasks := unfinished_tasks ?q2 - 1\<rparr>, ?ws1)"
    using u by (intro send_shutdown) auto
  then have r2: "run_sender ?self2 =
      ?self2\<lparr>log_queue_task := Some Finished,
              log_queue := Some (?q2\<lparr>items := [], unfinished_tasks := unfinished_tasks ?q2 - 1\<rparr>),
              websocket := Some ?ws1\<rparr>"
    by (intro run_sender_running) auto
  have "await_log_queue_task ?self2 =
      Returns (?self2\<lparr>log_queue_task := Some Finished,
              log_queue := Some (?q2\<lparr>items := [], unfinished_tasks := unfinished_tasks ?q2 - 1\<rparr>),
              websocket := Some ?ws1\<rparr>)"
    unfolding await_log_queue_task_def r2 by simp
  then show ?thesis
    using q put by (simp add: stop_log_queue_processing_def)
next
  case False
  let ?q1 = "q\<lparr>items := items q @ [ClientShutdown], unfinished_tasks := unfinished_tasks q + 1\<rparr>"
  let ?self1 = "self\<lparr>log_queue := Some ?q1\<rparr>"
  have put: "put self q ClientShutdown = Returns ?self1"
    using False q by (simp add: put_def put_nowait_def)
  let ?ws1 = "ws\<lparr>ws_sent := ws_sent ws @ ms\<rparr>"
  have "send_queued_logs ?q1 ws =
     (Finished, ?q1\<lparr>items := [], unfinished_tasks := unfinished_tasks ?q1 - int (length ms) - 1\<rparr>, ?ws1)"
    using i u o by (intro drain_to_shutdown) auto
  then have r: "run_sender ?self1 =
      ?self1\<lparr>log_queue_task := Some Finished,
              log_queue := Some (?q1\<lparr>items := [], unfinished_tasks := unfinished_tasks ?q1 - int (length ms) - 1\<rparr>),
              websocket := Some ?ws1\<rparr>"
    using t w by (intro run_sender_running) auto
  have "await_log_queue_task ?self1 =
      Returns (?self1\<lparr>log_queue_task := Some Finished,
              log_queue := Some (?q1\<lparr>items := [], unfinished_tasks := unfinished_tasks ?q1 - int (length ms) - 1\<rparr>),
              websocket := Some ?ws1\<rparr>)"
    unfolding await_log_queue_task_def r by simp
  then show ?thesis
    using q t put by (simp add: stop_log_queue_processing_def)
qed

lemma await_update_console_task_websocket:
  "websocket (state_of (await_update_console_task self)) = websocket self"
  by (auto simp: await_update_console_task_def closed_message_def
      split: option.splits task.splits if_splits)

lemma stop_incoming_websocket:
  "websocket (state_of (stop_incoming_message_processing self)) =
     map_option ws_close (websocket self)"
proof -
  define self1 where "self1 = (case websocket self of None \<Rightarrow> self
                   | Some ws \<Rightarrow> self\<lparr>websocket := Some (ws_close ws)\<rparr>)"
  have w1: "websocket self1 = map_option ws_close (websocket self)"
    by (auto simp: self1_def split: option.splits)
  have "websocket (state_of (stop_incoming_message_processing self)) = websocket self1"
    unfolding stop_incoming_message_processing_def self1_def [symmetric] Let_def
    using await_update_console_task_websocket [of self1]
    by (cases "update_console_task self1"; cases "await_update_console_task self1")
       (auto split: option.splits)
  then show ?thesis by (simp add: w1)
qed

lemma disconnect_sends_all:
  assumes "log_queue self = Some q" "items q = map Message ms"
    "int (length ms) \<le> unfinished_tasks q"
    "websocket self = Some ws" "\<not> ws_closed ws" "log_queue_task self = Some Running"
  shows "websocket (state_of (disconnect self)) =
     Some (ws\<lparr>ws_closed := True, ws_sent := ws_sent ws @ ms\<rparr>)"
  using stop_log_queue_processing_sends_all [OF assms]
  by (simp add: disconnect_def stop_incoming_websocket ws_close_def)

text \<open>
  Claim C5. A sender that takes the sentinel off the queue ends its loop and leaves
  the socket as it is: nothing is written for the sentinel. And on a client with an
  open socket and a running sender whose queue holds records only (each counted as
  unfinished), \<open>_stop_log_queue_processing\<close>, the first phase of \<open>disconnect\<close>, returns
  with the sender finished, the queue empty and every record that was queued before
  the sentinel written to the socket, in order, after what had been written before;
  and \<open>disconnect\<close>, however its second phase ends, leaves the socket closed with
  exactly these records written.
\<close>

theorem shutdown_after_queued_records:
  "(items q = ClientShutdown # rest \<longrightarrow>
      send_queued_logs q ws =
        (if 0 < unfinished_tasks q
         then (Finished, q\<lparr>items := rest, unfinished_tasks := unfinished_tasks q - 1\<rparr>, ws)
         else (Failed ValueError, q\<lparr>items := rest\<rparr>, ws)))
   \<and> (log_queue self = Some q' \<and> items q' = map Message ms
        \<and> int (length ms) \<le> unfinished_tasks q'
        \<and> websocket self = Some ws' \<and> \<not> ws_closed ws' \<and> log_queue_task self = Some Running
      \<longrightarrow> stop_log_queue_processing self =
            Returns (self\<lparr>log_queue_task := Some Finished,
               log_queue := Some (q'\<lparr>items := [],
                                     unfinished_tasks := unfinished_tasks q' - int (length ms)\<rparr>),
               websocket := Some (ws'\<lparr>ws_sent := ws_sent ws' @ ms\<rparr>)\<rparr>)
          \<and> websocket (state_of (disconnect self)) =
              Some (ws'\<lparr>ws_closed := True, ws_sent := ws_sent ws' @ ms\<rparr>))"
proof (intro conjI impI)
  assume a: "items q = ClientShutdown # rest"
  show "send_queued_logs q ws =
        (if 0 < unfinished_tasks q
         then (Finished, q\<lparr>items := rest, unfinished_tasks := unfinished_tasks q - 1\<rparr>, ws)
         else (Failed ValueError, q\<lparr>items := rest\<rparr>, ws))"
    using a by (subst send_queued_logs.simps) (simp add: get_def task_done_def)
next
  assume h: "log_queue self = Some q' \<and> items q' = map Message ms
        \<and> int (length ms) \<le> unfinished_tasks q'
        \<and> websocket self = Some ws' \<and> \<not> ws_closed ws' \<and> log_queue_task self = Some Running"
  then show "stop_log_queue_processing self =
            Returns (self\<lparr>log_queue_task := Some Finished,
               log_queue := Some (q'\<lparr>items := [],
                                     unfinished_tasks := unfinished_tasks q' - int (length ms)\<rparr>),
               websocket := Some (ws'\<lparr>ws_sent := ws_sent ws' @ ms\<rparr>)\<rparr>)"
    by (intro stop_log_queue_processing_sends_all) auto
  from h show "websocket (state_of (disconnect self)) =
              Some (ws'\<lparr>ws_closed := True, ws_sent := ws_sent ws' @ ms\<rparr>)"
    by (intro disconnect_sends_all) auto
qed

lemma connected_client_fields [simp]:
  "websocket connected_client = Some new_websocket"
  "log_queue_task connected_client = Some Running"
  "update_console_task connected_client = Some Running"
  "session connected_client = Some new_session"
  "log_queue connected_client = Some (Queue LOG_QUEUE_MAXSIZE)"
  "spillover connected_client = 0"
  by (simp_all add: connected_client_eq fresh_client_def DevtoolsClient_def)

text \<open>The theorem on a queue led by the sentinel, and on a client with two queued records.\<close>

theorem shutdown_after_queued_records_witness:
  "send_queued_logs \<lparr>items = [ClientShutdown, Message ''late''], maxsize = 512, unfinished_tasks = 2\<rparr>
       new_websocket =
     (Finished, \<lparr>items = [Message ''late''], maxsize = 512, unfinished_tasks = 1\<rparr>, new_websocket)
   \<and> stop_log_queue_processing (connected_client\<lparr>log_queue := Some (queue_of_size 2)\<rparr>) =
       Returns (connected_client\<lparr>log_queue_task := Some Finished,
          log_queue := Some ((queue_of_size 2)\<lparr>items := [], unfinished_tasks := 0\<rparr>),
          websocket := Some (new_websocket\<lparr>ws_sent := [''m'', ''m'']\<rparr>)\<rparr>)
   \<and> websocket (state_of (disconnect (connected_client\<lparr>log_queue := Some (queue_of_size 2)\<rparr>))) =
       Some \<lparr>ws_closed = True, ws_sent = [''m'', ''m'']\<rparr>"
proof -
  have i: "items (queue_of_size 2) = map Message [''m'', ''m'']"
    by (simp add: numeral_2_eq_2)
  have o: "\<not> ws_closed new_websocket" and e: "ws_sent new_websocket = []"
    by (simp_all add: new_websocket_def)
  show ?thesis
    using shutdown_after_queued_records [of "\<lparr>items = [ClientShutdown, Message ''late''], maxsize = 512, unfinished_tasks = 2\<rparr>"
        "[Message ''late'']" new_websocket, THEN conjunct1]
      shutdown_after_queued_records [of _ _ _ "connected_client\<lparr>log_queue := Some (queue_of_size 2)\<rparr>"
        "queue_of_size 2" "[''m'', ''m'']" new_websocket, THEN conjunct2] i o e
    by (simp add: new_websocket_def)
qed

text \<open>
  Claim C3. On a connected client (open socket, running sender) with an empty queue of
  capacity 512 and the spillover counter at 0: for every \<open>N \<le> 512\<close>, after \<open>N\<close> calls of
  \<open>log\<close> the queue holds the \<open>N\<close> records in the order of the calls, and the sender,
  run until the queue is empty, has written exactly these records to the socket in that
  order.
\<close>

theorem fifo_delivery:
  assumes "log_queue self = Some q" "items q = []" "maxsize q = LOG_QUEUE_MAXSIZE"
    "0 \<le> unfinished_tasks q" "spillover self = 0"
    "websocket self = Some ws" "\<not> ws_closed ws" "log_queue_task self = Some Running"
    "length calls \<le> nat LOG_QUEUE_MAXSIZE"
  shows "\<exists>self' q'. log_calls lib self calls = Returns self'
      \<and> log_queue self' = Some q' \<and> items q' = map Message (log_texts lib (console self) calls)
      \<and> run_sender self' =
          self\<lparr>console := log_consoles lib (console self) calls,
               websocket := Some (ws\<lparr>ws_sent := ws_sent ws @ log_texts lib (console self) calls\<rparr>)\<rparr>"
proof -
  let ?ms = "log_texts lib (console self) calls"
  let ?q1 = "q\<lparr>items := items q @ map Message ?ms,
           unfinished_tasks := unfinished_tasks q + int (length calls)\<rparr>"
  let ?self1 = "self\<lparr>console := log_consoles lib (console self) calls, log_queue := Some ?q1\<rparr>"
  have calls: "log_calls lib self calls = Returns ?self1"
    using assms by (intro log_calls_room) (auto simp: qsize_def LOG_QUEUE_MAXSIZE_def)
  have "send_queued_logs ?q1 ws =
     (Running, ?q1\<lparr>items := [], unfinished_tasks := unfinished_tasks ?q1 - int (length ?ms)\<rparr>,
      ws\<lparr>ws_sent := ws_sent ws @ ?ms\<rparr>)"
    using assms by (intro drain_to_empty) (auto simp: length_log_texts)
  then have "run_sender ?self1 =
     ?self1\<lparr>log_queue_task := Some Running,
       log_queue := Some (?q1\<lparr>items := [], unfinished_tasks := unfinished_tasks ?q1 - int (length ?ms)\<rparr>),
       websocket := Some (ws\<lparr>ws_sent := ws_sent ws @ ?ms\<rparr>)\<rparr>"
    using assms by (intro run_sender_running) auto
  moreover have "q\<lparr>items := []\<rparr> = q"
    using assms(2) by simp
  moreover have "self\<lparr>log_queue_task := Some Running\<rparr> = self" "self\<lparr>log_queue := Some q\<rparr> = self"
    using assms(1,8) by simp_all
  ultimately have "run_sender ?self1 =
      self\<lparr>console := log_consoles lib (console self) calls,
               websocket := Some (ws\<lparr>ws_sent := ws_sent ws @ ?ms\<rparr>)\<rparr>"
    using assms(1,2,8) by (simp add: length_log_texts)
  then show ?thesis
    using calls assms(2) by simp
qed

text \<open>The theorem for two calls on the client \<open>connect\<close> has just returned.\<close>

theorem fifo_delivery_witness:
  "\<exists>self' q'. log_calls example_library connected_client
         [([''hello''], ''app.py'', 5, 0), ([''world''], ''app.py'', 6, 1)] = Returns self'
      \<and> log_queue self' = Some q'
      \<and> items q' =
          [Message (log_text example_library (new_console 80 25) [''hello''] ''app.py'' 5 0),
           Message (log_text example_library (new_console 80 25) [''world''] ''app.py'' 6 1)]
      \<and> run_sender self' =
          connected_client\<lparr>websocket := Some (new_websocket\<lparr>ws_sent :=
            [log_text example_library (new_console 80 25) [''hello''] ''app.py'' 5 0,
             log_text example_library (new_console 80 25) [''world''] ''app.py'' 6 1]\<rparr>)\<rparr>"
proof -
  have q: "log_queue connected_client = Some (Queue LOG_QUEUE_MAXSIZE)"
    and w: "websocket connected_client = Some new_websocket"
    and t: "log_queue_task connected_client = Some Running"
    and s: "spillover connected_client = 0"
    by simp_all
  have i: "items (Queue LOG_QUEUE_MAXSIZE) = []" and m: "maxsize (Queue LOG_QUEUE_MAXSIZE) = LOG_QUEUE_MAXSIZE"
    and u: "0 \<le> unfinished_tasks (Queue LOG_QUEUE_MAXSIZE)"
    by (simp_all add: Queue_def)
  have o: "\<not> ws_closed new_websocket"
    by (simp add: new_websocket_def)
  have l: "length [([''hello''], ''app.py'', 5::int, 0::int), ([''world''], ''app.py'', 6, 1)] \<le> nat LOG_QUEUE_MAXSIZE"
    by (simp add: LOG_QUEUE_MAXSIZE_def)
  have c: "connected_client\<lparr>console := new_console 80 25\<rparr> = connected_client"
    using console_connected by (metis client.surjective client.update_convs(5))
  show ?thesis
    using fifo_delivery [OF q i m u s w o t l, of example_library] c
    by (simp add: new_websocket_def)
qed

lemma disconnect_connected_client: "disconnect connected_client = Returns disconnected_client"
proof -
  have "stop_log_queue_processing connected_client =
     Returns (connected_client\<lparr>log_queue_task := Some Finished,
        log_queue := Some ((Queue LOG_QUEUE_MAXSIZE)\<lparr>items := [],
            unfinished_tasks := unfinished_tasks (Queue LOG_QUEUE_MAXSIZE) - int (length ([] :: string list))\<rparr>),
        websocket := Some (new_websocket\<lparr>ws_sent := ws_sent new_websocket @ []\<rparr>)\<rparr>)"
    by (intro stop_log_queue_processing_sends_all) (simp_all add: Queue_def new_websocket_def)
  then have "stop_log_queue_processing connected_client =
     Returns (connected_client\<lparr>log_queue_task := Some Finished\<rparr>)"
    by (simp add: Queue_def connected_client_eq)
  then show ?thesis
    by (simp add: disconnect_def stop_incoming_message_processing_def await_update_console_task_def
        ws_close_def session_close_def closed_message_def disconnected_client_def
        new_websocket_def new_session_def connected_client_eq)
qed

text \<open>
  The theorem of claim C9 on the connected client, on the client \<open>disconnect\<close> returns
  for it, and with the socket or the session closed.
\<close>

theorem is_connected_iff_witness:
  "is_connected connected_client
   \<and> disconnect connected_client = Returns disconnected_client
   \<and> \<not> is_connected disconnected_client
   \<and> \<not> is_connected (connected_client\<lparr>websocket := Some \<lparr>ws_closed = True, ws_sent = []\<rparr>\<rparr>)
   \<and> \<not> is_connected (connected_client\<lparr>session := Some \<lparr>closed = True\<rparr>\<rparr>)"
proof -
  have a: "is_connected connected_client"
    using is_connected_iff [of connected_client, THEN conjunct1]
    by (simp add: new_session_def new_websocket_def)
  have b: "\<not> is_connected disconnected_client"
    using is_connected_iff [of connected_client _ _ _ _ disconnected_client, THEN conjunct2, THEN conjunct2, THEN conjunct1]
      disconnect_connected_client by simp
  have c: "\<not> is_connected (connected_client\<lparr>websocket := Some \<lparr>ws_closed = True, ws_sent = []\<rparr>\<rparr>)"
    using is_connected_iff [of "connected_client\<lparr>websocket := Some \<lparr>ws_closed = True, ws_sent = []\<rparr>\<rparr>" _ _ _ _ _ "\<lparr>ws_closed = True, ws_sent = []\<rparr>",
        THEN conjunct2, THEN conjunct2, THEN conjunct2, THEN conjunct1]
    by simp
  have d: "\<not> is_connected (connected_client\<lparr>session := Some \<lparr>closed = True\<rparr>\<rparr>)"
    using is_connected_iff [of "connected_client\<lparr>session := Some \<lparr>closed = True\<rparr>\<rparr>" _ _ _ _ _ _ "\<lparr>closed = True\<rparr>",
        THEN conjunct2, THEN conjunct2, THEN conjunct2, THEN conjunct2]
    by simp
  show ?thesis
    using a b c d disconnect_connected_client by simp
qed

subsection \<open>The segment encoder (C8)\<close>

lemma unat_byte_of_nat: "n < 256 \<Longrightarrow> unat (of_nat n :: byte) = n"
  by (simp add: unat_of_nat)

lemma unat_b64_char:
  assumes "i < 64"
  shows "unat (b64_char i) =
     (if i < 26 then 65 + i else if i < 52 then 71 + i else if i < 62 then i - 4
      else if i = 62 then 43 else 47)"
proof -
  have "unat (of_nat (65 + i) :: byte) = 65 + i" "unat (of_nat (71 + i) :: byte) = 71 + i"
    "unat (of_nat (i - 4) :: byte) = i - 4"
    using assms by (simp_all only: unat_byte_of_nat)
  then show ?thesis
    unfolding b64_char_def by auto
qed

lemma b64_index_char: "i < 64 \<Longrightarrow> b64_index (b64_char i) = Some i"
  unfolding b64_index_def Let_def by (simp only: unat_b64_char) auto

lemma b64_char_not_pad: "i < 64 \<Longrightarrow> b64_char i \<noteq> b64_pad"
proof
  assume "i < 64" "b64_char i = b64_pad"
  then have "unat (b64_char i) = 61" by (simp add: b64_pad_def)
  then show False using \<open>i < 64\<close> by (simp only: unat_b64_char) (auto split: if_splits)
qed

lemma b64_index_pad: "b64_index b64_pad = None"
  by (simp add: b64_index_def b64_pad_def)

lemma byte_of_unat: "of_nat (unat b mod 256) = (b :: byte)"
proof -
  have "unat b < 256" using unsigned_less [of b, where ?'a = nat] by simp
  then show ?thesis by simp
qed

lemma ascii_bytes_str_utf8: "ascii_bytes (str_utf8 bs) = bs"
  by (induction bs) (simp_all add: ascii_bytes_def str_utf8_def byte_of_unat)

lemma div_mod_base:
  fixes a r m :: nat
  assumes "r < m"
  shows "(a * m + r) div m = a" "(a * m + r) mod m = r"
  using assms by simp_all

lemma sextets_join:
  fixes n :: nat
  shows "n div 262144 * 262144 + n div 4096 mod 64 * 4096 + n div 64 mod 64 * 64 + n mod 64 = n"
proof -
  define q1 where "q1 = n div 64"
  define q2 where "q2 = q1 div 64"
  define q3 where "q3 = q2 div 64"
  have a: "n div 4096 = q2" unfolding q2_def q1_def by (simp add: div_mult2_eq [symmetric])
  have b: "n div 262144 = q3" unfolding q3_def q2_def q1_def by (simp add: div_mult2_eq [symmetric])
  have 1: "n = q1 * 64 + n mod 64" unfolding q1_def by simp
  have 2: "q1 = q2 * 64 + q1 mod 64" unfolding q2_def by simp
  have 3: "q2 = q3 * 64 + q2 mod 64" unfolding q3_def by simp
  have "q3 * 262144 + q2 mod 64 * 4096 + q1 mod 64 * 64 + n mod 64
      = ((q3 * 64 + q2 mod 64) * 64 + q1 mod 64) * 64 + n mod 64"
    by (simp add: algebra_simps)
  also have "\<dots> = n" using 1 2 3 by simp
  finally show ?thesis by (simp add: a b q1_def [symmetric])
qed

lemma low0_1: "(a * 65536) mod 64 = (0::nat)" "(a * 65536) div 64 mod 64 = (0::nat)"
proof -
  have "a * 65536 = (a * 1024) * 64" by simp
  then show "(a * 65536) mod 64 = (0::nat)" by (metis mod_mult_self2_is_0)
  have "a * 65536 div 64 = (a * 16) * 64" by simp
  then show "(a * 65536) div 64 mod 64 = (0::nat)" by (metis mod_mult_self2_is_0)
qed

lemma low0_2: "(a * 65536 + b * 256) mod 64 = (0::nat)"
proof -
  have "a * 65536 + b * 256 = (a * 1024 + b * 4) * 64" by simp
  then show ?thesis by (metis mod_mult_self2_is_0)
qed

lemma group1:
  fixes a :: nat
  shows "(a * 65536 div 262144 * 262144 + a * 65536 div 4096 mod 64 * 4096) div 65536 = a"
proof -
  have "a * 65536 div 262144 * 262144 + a * 65536 div 4096 mod 64 * 4096 = a * 65536"
    using sextets_join [of "a * 65536"] low0_1 [of a] by simp
  then show ?thesis by simp
qed

lemma group2:
  fixes a b :: nat
  assumes "b < 256"
  defines "n \<equiv> a * 65536 + b * 256"
  shows "(n div 262144 * 262144 + n div 4096 mod 64 * 4096 + n div 64 mod 64 * 64) div 65536 = a"
    "(n div 262144 * 262144 + n div 4096 mod 64 * 4096 + n div 64 mod 64 * 64) div 256 mod 256 = b"
proof -
  have s: "n div 262144 * 262144 + n div 4096 mod 64 * 4096 + n div 64 mod 64 * 64 = n"
    using sextets_join [of n] low0_2 [of a b] by (simp add: n_def)
  have "b * 256 < 65536" using assms by simp
  then show "(n div 262144 * 262144 + n div 4096 mod 64 * 4096 + n div 64 mod 64 * 64) div 65536 = a"
    unfolding s unfolding n_def by (rule div_mod_base(1))
  have "n = (a * 256 + b) * 256 + 0" by (simp add: n_def)
  then have "n div 256 = a * 256 + b" by simp
  then show "(n div 262144 * 262144 + n div 4096 mod 64 * 4096 + n div 64 mod 64 * 64) div 256 mod 256 = b"
    unfolding s using assms by simp
qed

lemma group3:
  fixes a b c :: nat
  assumes "b < 256" "c < 256"
  defines "n \<equiv> a * 65536 + b * 256 + c"
  shows "n div 65536 = a" "n div 256 mod 256 = b" "n mod 256 = c"
proof -
  have "b * 256 + c < 65536" using assms by simp
  then have "(a * 65536 + (b * 256 + c)) div 65536 = a" by (rule div_mod_base(1))
  then show "n div 65536 = a" by (simp add: n_def add.assoc)
  have n: "n = (a * 256 + b) * 256 + c" by (simp add: n_def)
  have "((a * 256 + b) * 256 + c) div 256 = a * 256 + b" using assms(2) by (rule div_mod_base(1))
  then show "n div 256 mod 256 = b" using assms(1) by (simp add: n)
  show "n mod 256 = c" unfolding n using assms(2) by (rule div_mod_base(2))
qed

lemma sextets_bound:
  fixes n :: nat
  assumes "n < 16777216"
  shows "n div 262144 < 64" "n div 4096 mod 64 < 64" "n div 64 mod 64 < 64" "n mod 64 < 64"
  using assms by (simp_all add: less_mult_imp_div_less)

lemma unat_byte_less: "unat (b :: byte) < 256"
  using unsigned_less [of b, where ?'a = nat] by simp

lemma b64decode_group:
  assumes "i < 64" "j < 64" "k < 64" "l < 64"
  shows "b64decode (b64_char i # b64_char j # b64_char k # b64_char l # rest) =
     (let n = i * 262144 + j * 4096 + k * 64 + l
      in case b64decode rest of
           None \<Rightarrow> None
         | Some bs \<Rightarrow> Some (of_nat (n div 65536) # of_nat (n div 256 mod 256) # of_nat (n mod 256) # bs))"
  using assms by (simp add: b64_index_char b64_char_not_pad)

lemma b64decode_last2:
  assumes "i < 64" "j < 64" "k < 64"
  shows "b64decode [b64_char i, b64_char j, b64_char k, b64_pad] =
     (let n = i * 262144 + j * 4096 + k * 64
      in Some [of_nat (n div 65536), of_nat (n div 256 mod 256)])"
  using assms by (simp add: b64_index_char b64_char_not_pad)

lemma b64decode_last1:
  assumes "i < 64" "j < 64"
  shows "b64decode [b64_char i, b64_char j, b64_pad, b64_pad] =
     Some [of_nat ((i * 262144 + j * 4096) div 65536)]"
  using assms by (simp add: b64_index_char)

lemma b64decode_b64encode: "b64decode (b64encode bs) = Some bs"
proof (induction bs rule: b64encode.induct)
  case 1
  show ?case by simp
next
  case (2 a)
  define n where "n = unat a * 65536"
  have "n < 16777216" using unat_byte_less [of a] by (simp add: n_def)
  then have b: "n div 262144 < 64" "n div 4096 mod 64 < 64" by (rule sextets_bound)+
  have e: "b64encode [a] = [b64_char (n div 262144), b64_char (n div 4096 mod 64), b64_pad, b64_pad]"
    by (simp add: n_def Let_def)
  have d: "b64decode [b64_char (n div 262144), b64_char (n div 4096 mod 64), b64_pad, b64_pad] =
      Some [of_nat ((n div 262144 * 262144 + n div 4096 mod 64 * 4096) div 65536)]"
    using b by (rule b64decode_last1)
  have "(n div 262144 * 262144 + n div 4096 mod 64 * 4096) div 65536 = unat a"
    unfolding n_def by (rule group1)
  then show ?case
    unfolding e d by simp
next
  case (3 a b)
  define n where "n = unat a * 65536 + unat b * 256"
  have "n < 16777216" using unat_byte_less [of a] unat_byte_less [of b] by (simp add: n_def)
  then have s: "n div 262144 < 64" "n div 4096 mod 64 < 64" "n div 64 mod 64 < 64"
    by (rule sextets_bound)+
  have e: "b64encode [a, b] =
      [b64_char (n div 262144), b64_char (n div 4096 mod 64), b64_char (n div 64 mod 64), b64_pad]"
    by (simp add: n_def Let_def)
  have d: "b64decode [b64_char (n div 262144), b64_char (n div 4096 mod 64), b64_char (n div 64 mod 64), b64_pad] =
      (let m = n div 262144 * 262144 + n div 4096 mod 64 * 4096 + n div 64 mod 64 * 64
       in Some [of_nat (m div 65536), of_nat (m div 256 mod 256)])"
    using s by (rule b64decode_last2)
  have "(n div 262144 * 262144 + n div 4096 mod 64 * 4096 + n div 64 mod 64 * 64) div 65536 = unat a"
    "(n div 262144 * 262144 + n div 4096 mod 64 * 4096 + n div 64 mod 64 * 64) div 256 mod 256 = unat b"
    unfolding n_def using unat_byte_less [of b] by (rule group2)+
  then show ?case
    unfolding e d Let_def by simp
next
  case (4 a b c rest)
  define n where "n = unat a * 65536 + unat b * 256 + unat c"
  have "n < 16777216"
    using unat_byte_less [of a] unat_byte_less [of b] unat_byte_less [of c] by (simp add: n_def)
  then have s: "n div 262144 < 64" "n div 4096 mod 64 < 64" "n div 64 mod 64 < 64" "n mod 64 < 64"
    by (rule sextets_bound)+
  have e: "b64encode (a # b # c # rest) =
      b64_char (n div 262144) # b64_char (n div 4096 mod 64) # b64_char (n div 64 mod 64)
        # b64_char (n mod 64) # b64encode rest"
    by (simp add: n_def Let_def)
  have j: "n div 262144 * 262144 + n div 4096 mod 64 * 4096 + n div 64 mod 64 * 64 + n mod 64 = n"
    by (rule sextets_join)
  have d: "b64decode (b64_char (n div 262144) # b64_char (n div 4096 mod 64) # b64_char (n div 64 mod 64)
        # b64_char (n mod 64) # b64encode rest) =
      (case b64decode (b64encode rest) of
           None \<Rightarrow> None
         | Some bs \<Rightarrow> Some (of_nat (n div 65536) # of_nat (n div 256 mod 256) # of_nat (n mod 256) # bs))"
    using b64decode_group [OF s, of "b64encode rest"] unfolding Let_def j .
  have g: "n div 65536 = unat a" "n div 256 mod 256 = unat b" "n mod 256 = unat c"
    unfolding n_def using unat_byte_less [of b] unat_byte_less [of c] by (rule group3)+
  show ?case
    unfolding e d g using "4.IH" by simp
qed

lemma decode_encode_segments:
  "decode_segments pickle_loads (encode_segments lib segments) =
     pickle_loads (pickle_dumps lib segments)"
  by (simp add: decode_segments_def encode_segments_def ascii_bytes_str_utf8 b64decode_b64encode)

text \<open>
  Claim C8. For every list of segments that \<open>pickle.loads\<close> gets back from what
  \<open>pickle.dumps\<close> made of it, the empty list included, decoding the string the encoder
  produced (base64-decode, then unpickle) gives the list back: the base64 and the
  UTF-8 step lose nothing.
\<close>

theorem encode_segments_reversible:
  assumes "pickle_loads (pickle_dumps lib segments) = Some segments"
  shows "decode_segments pickle_loads (encode_segments lib segments) = Some segments"
  using assms by (simp add: decode_encode_segments)

text \<open>
  The theorem on the empty list and on lists of one, two, three and four segments, with
  the identity as pickle.
\<close>

theorem encode_segments_reversible_witness:
  "decode_segments Some (encode_segments example_library []) = Some []
   \<and> decode_segments Some (encode_segments example_library [104]) = Some [104]
   \<and> decode_segments Some (encode_segments example_library [104, 105]) = Some [104, 105]
   \<and> decode_segments Some (encode_segments example_library [104, 105, 33]) = Some [104, 105, 33]
   \<and> decode_segments Some (encode_segments example_library [104, 105, 33, 255]) =
        Some [104, 105, 33, 255]"
proof -
  have p: "Some (pickle_dumps example_library s) = Some s" for s
    by (simp add: example_library_def)
  show ?thesis
    using encode_segments_reversible [of Some example_library "[]", OF p]
      encode_segments_reversible [of Some example_library "[104]", OF p]
      encode_segments_reversible [of Some example_library "[104, 105]", OF p]
      encode_segments_reversible [of Some example_library "[104, 105, 33]", OF p]
      encode_segments_reversible [of Some example_library "[104, 105, 33, 255]", OF p]
    by simp
qed

end
